theory Spec2Isabelle
  imports Complex_Main "HOL-Library.Sublist" "HOL-Library.Char_ord" "HOL-Library.List_Lexorder"
begin

section \<open>aiohttp.web: the lifecycle driver \<open>run_app\<close> and the command line \<open>main\<close>\<close>

text \<open>
  The development embeds \<^verbatim>\<open>aiohttp/web.py\<close>: the function \<^verbatim>\<open>run_app\<close>, which
  prepares a runner, builds the list of sites from its \<^verbatim>\<open>host\<close>, \<^verbatim>\<open>port\<close>,
  \<^verbatim>\<open>path\<close> and \<^verbatim>\<open>sock\<close> arguments, starts them, waits, and cleans up; and the
  function \<^verbatim>\<open>main\<close>, which resolves the entry function and calls \<^verbatim>\<open>run_app\<close>.

  Everything \<^verbatim>\<open>run_app\<close> calls on the event loop, the runner and the sites is an
  external call. The outcome of each such call (it returns, or it raises) is a field of
  an environment record, and the model logs every call in a trace. A value of the
  environment therefore describes one completed run; the functions below compute what
  \<^verbatim>\<open>run_app\<close> does in that run.
\<close>

subsection \<open>Exceptions, arguments and sites\<close>

datatype exc =
    GracefulExit
  | KeyboardInterrupt
  | ImportError string
  | OtherError string

text \<open>
  \<^verbatim>\<open>host\<close>, \<^verbatim>\<open>path\<close> and \<^verbatim>\<open>sock\<close> are each absent (\<^verbatim>\<open>None\<close>), one value, or a
  sequence of values. For \<^verbatim>\<open>host\<close> and \<^verbatim>\<open>path\<close> one value is what passes
  \<^verbatim>\<open>isinstance(_, (str, bytes, bytearray, memoryview))\<close>; for \<^verbatim>\<open>sock\<close> it is what
  is not an \<^verbatim>\<open>Iterable\<close>.
\<close>

datatype 'a one_or_many = Single 'a | Several "'a list"

record run_args =
  host :: "string one_or_many option"
  port :: "int option"
  path :: "string one_or_many option"
  sock :: "nat one_or_many option"
  shutdown_timeout :: real
  ssl_context :: "nat option"
  print :: bool
  backlog :: int
  reuse_address :: "bool option"
  reuse_port :: "bool option"

text \<open>
  A socket and a TLS context are opaque handles (natural numbers). The field
  \<open>print\<close> is the truth value of the \<^verbatim>\<open>print\<close> callable, which is all that
  \<^verbatim>\<open>if print:\<close> reads. The remaining keyword arguments of \<^verbatim>\<open>run_app\<close>
  (\<^verbatim>\<open>handle_signals\<close> and the access log settings) are handed to the
  \<^verbatim>\<open>AppRunner\<close> constructor and read nowhere else.

  A site records the constructor that made it and the arguments it was given:
  \<^verbatim>\<open>TCPSite(runner, host, port, shutdown_timeout, ssl_context, backlog, reuse_address,
  reuse_port)\<close>, \<^verbatim>\<open>UnixSite(runner, path, shutdown_timeout, ssl_context, backlog)\<close> and
  \<^verbatim>\<open>SockSite(runner, sock, shutdown_timeout, ssl_context, backlog)\<close>. A
  \<^verbatim>\<open>TCPSite\<close> whose host is \<open>None\<close> was built without a host argument, and one
  whose port is \<open>None\<close> was handed \<^verbatim>\<open>port=None\<close>: the constructor, which is not
  part of \<^verbatim>\<open>web.py\<close>, chooses the wildcard address and the default port then.
\<close>

datatype site =
    TCPSite "string option" "int option" real "nat option" int "bool option" "bool option"
  | UnixSite string real "nat option" int
  | SockSite nat real "nat option" int

fun is_TCPSite :: "site \<Rightarrow> bool" where
  "is_TCPSite (TCPSite h p t c b ra rp) = True"
| "is_TCPSite (UnixSite f t c b) = False"
| "is_TCPSite (SockSite s t c b) = False"

fun is_UnixSite :: "site \<Rightarrow> bool" where
  "is_UnixSite (TCPSite h p t c b ra rp) = False"
| "is_UnixSite (UnixSite f t c b) = True"
| "is_UnixSite (SockSite s t c b) = False"

fun is_SockSite :: "site \<Rightarrow> bool" where
  "is_SockSite (TCPSite h p t c b ra rp) = False"
| "is_SockSite (UnixSite f t c b) = False"
| "is_SockSite (SockSite s t c b) = True"

definition tcp_site :: "run_args \<Rightarrow> string option \<Rightarrow> site" where
  "tcp_site a h =
     TCPSite h (port a) (shutdown_timeout a) (ssl_context a) (backlog a)
       (reuse_address a) (reuse_port a)"

definition unix_site :: "run_args \<Rightarrow> string \<Rightarrow> site" where
  "unix_site a f = UnixSite f (shutdown_timeout a) (ssl_context a) (backlog a)"

definition sock_site :: "run_args \<Rightarrow> nat \<Rightarrow> site" where
  "sock_site a s = SockSite s (shutdown_timeout a) (ssl_context a) (backlog a)"

subsection \<open>The environment of a run, events and state\<close>

record env =
  app_is_coroutine :: bool
  app_result :: "exc option"
  setup_result :: "exc option"
  construct_result :: "site \<Rightarrow> exc option"
  start_result :: "nat \<Rightarrow> exc option"
  site_name :: "site \<Rightarrow> string"
  print_result :: "exc option"
  run_forever_result :: "exc option"
  cleanup_result :: "exc option"
  PY_36 :: bool
  has_shutdown_asyncgens :: bool
  shutdown_asyncgens_result :: "exc option"
  close_result :: "exc option"

text \<open>
  In each \<open>_result\<close> field \<open>None\<close> says that the call returns and \<open>Some e\<close> that it
  raises \<open>e\<close>. \<open>start_result env i\<close> is the outcome of \<^verbatim>\<open>start()\<close> on the site at
  index \<open>i\<close> of the list \<^verbatim>\<open>sites\<close>; \<open>construct_result env s\<close> is the outcome of the
  constructor call that would make the site \<open>s\<close>. \<open>run_forever_result\<close> is how
  \<^verbatim>\<open>loop.run_forever()\<close> ends: it returns after \<^verbatim>\<open>loop.stop()\<close>, or an exception
  leaves it.
\<close>

datatype event =
    AwaitApp
  | Setup
  | Start site
  | Print string
  | RunForever
  | Cleanup
  | Stop site
  | ShutdownAsyncgens
  | Close
  | ImportModule string
  | BasicConfig
  | CallFactory

record state =
  trace :: "event list"
  runner_sites :: "site list"

definition init_state :: state where
  "init_state = \<lparr>trace = [], runner_sites = []\<rparr>"

definition call :: "event \<Rightarrow> exc option \<Rightarrow> state \<Rightarrow> state \<times> (exc + unit)" where
  "call ev r st =
     (st\<lparr>trace := trace st @ [ev]\<rparr>, case r of None \<Rightarrow> Inr () | Some e \<Rightarrow> Inl e)"

subsection \<open>Runner and site operations\<close>

text \<open>
  Modelled from the spec: \<^verbatim>\<open>BaseSite.start()\<close> of \<^verbatim>\<open>web_runner\<close>, which is not
  part of the source at hand. A site that starts acquires its listening resource and
  registers with the runner, so that it is in the runner's live set; a start that fails
  raises and registers nothing.
\<close>

definition site_start :: "env \<Rightarrow> nat \<Rightarrow> site \<Rightarrow> state \<Rightarrow> state \<times> (exc + unit)" where
  "site_start env i s st =
     (case start_result env i of
        None \<Rightarrow>
          (st\<lparr>trace := trace st @ [Start s], runner_sites := runner_sites st @ [s]\<rparr>, Inr ())
      | Some e \<Rightarrow> (st\<lparr>trace := trace st @ [Start s]\<rparr>, Inl e))"

text \<open>
  Modelled from the spec: \<^verbatim>\<open>BaseRunner.cleanup()\<close> of \<^verbatim>\<open>web_runner\<close>, which is not
  part of the source at hand. Cleanup stops every registered site, attempting all of
  them, and then runs the shutdown hooks of the application; an error of the whole is
  raised after the attempts.
\<close>

definition runner_cleanup :: "env \<Rightarrow> state \<Rightarrow> state \<times> (exc + unit)" where
  "runner_cleanup env st =
     (st\<lparr>trace := trace st @ [Cleanup] @ map Stop (runner_sites st), runner_sites := []\<rparr>,
      case cleanup_result env of None \<Rightarrow> Inr () | Some e \<Rightarrow> Inl e)"

subsection \<open>Building the list of sites (lines 86 to 136)\<close>

definition append_site :: "env \<Rightarrow> site \<Rightarrow> site list \<Rightarrow> exc + site list" where
  "append_site env s sites =
     (case construct_result env s of Some e \<Rightarrow> Inl e | None \<Rightarrow> Inr (sites @ [s]))"

fun append_each :: "env \<Rightarrow> ('a \<Rightarrow> site) \<Rightarrow> 'a list \<Rightarrow> site list \<Rightarrow> exc + site list" where
  "append_each env mk [] sites = Inr sites"
| "append_each env mk (x # xs) sites =
     (case append_site env (mk x) sites of
        Inl e \<Rightarrow> Inl e
      | Inr sites' \<Rightarrow> append_each env mk xs sites')"

definition build_host :: "env \<Rightarrow> run_args \<Rightarrow> site list \<Rightarrow> exc + site list" where
  "build_host env a sites =
     (case host a of
        Some (Single h) \<Rightarrow> append_site env (tcp_site a (Some h)) sites
      | Some (Several hs) \<Rightarrow> append_each env (\<lambda>h. tcp_site a (Some h)) hs sites
      | None \<Rightarrow>
          if (path a = None \<and> sock a = None) \<or> port a \<noteq> None
          then append_site env (tcp_site a None) sites
          else Inr sites)"

definition build_path :: "env \<Rightarrow> run_args \<Rightarrow> site list \<Rightarrow> exc + site list" where
  "build_path env a sites =
     (case path a of
        None \<Rightarrow> Inr sites
      | Some (Single f) \<Rightarrow> append_site env (unix_site a f) sites
      | Some (Several fs) \<Rightarrow> append_each env (unix_site a) fs sites)"

definition build_sock :: "env \<Rightarrow> run_args \<Rightarrow> site list \<Rightarrow> exc + site list" where
  "build_sock env a sites =
     (case sock a of
        None \<Rightarrow> Inr sites
      | Some (Single s) \<Rightarrow> append_site env (sock_site a s) sites
      | Some (Several ss) \<Rightarrow> append_each env (sock_site a) ss sites)"

definition build_sites :: "env \<Rightarrow> run_args \<Rightarrow> exc + site list" where
  "build_sites env a =
     (case build_host env a [] of
        Inl e \<Rightarrow> Inl e
      | Inr sites1 \<Rightarrow>
          (case build_path env a sites1 of
             Inl e \<Rightarrow> Inl e
           | Inr sites2 \<Rightarrow> build_sock env a sites2))"

subsection \<open>Starting, serving and cleaning up (lines 137 to 152)\<close>

fun start_sites :: "env \<Rightarrow> nat \<Rightarrow> site list \<Rightarrow> state \<Rightarrow> state \<times> (exc + unit)" where
  "start_sites env i [] st = (st, Inr ())"
| "start_sites env i (s # ss) st =
     (case site_start env i s st of
        (st', Inl e) \<Rightarrow> (st', Inl e)
      | (st', Inr u) \<Rightarrow> start_sites env (Suc i) ss st')"

fun join :: "string \<Rightarrow> string list \<Rightarrow> string" where
  "join sep [] = []"
| "join sep [x] = x"
| "join sep (x # y # zs) = x @ sep @ join sep (y # zs)"

definition report :: "env \<Rightarrow> state \<Rightarrow> string" where
  "report env st =
     ''======== Running on '' @ join '', '' (sort (map (site_name env) (runner_sites st)))
       @ '' ========'' @ [CHR 0x0A] @ ''(Press CTRL+C to quit)''"

definition is_interrupt :: "exc \<Rightarrow> bool" where
  "is_interrupt e = (e = GracefulExit \<or> e = KeyboardInterrupt)"

definition serve :: "env \<Rightarrow> run_args \<Rightarrow> state \<Rightarrow> state \<times> (exc + unit)" where
  "serve env a st =
     (case (if print a then call (Print (report env st)) (print_result env) st
            else (st, Inr ())) of
        (st1, r1) \<Rightarrow>
          (case (case r1 of
                   Inl e \<Rightarrow> (st1, Inl e)
                 | Inr u \<Rightarrow> call RunForever (run_forever_result env) st1) of
             (st2, Inl e) \<Rightarrow> if is_interrupt e then (st2, Inr ()) else (st2, Inl e)
           | (st2, Inr u) \<Rightarrow> (st2, Inr ())))"

definition try_body :: "env \<Rightarrow> run_args \<Rightarrow> state \<Rightarrow> state \<times> (exc + unit)" where
  "try_body env a st =
     (case build_sites env a of
        Inl e \<Rightarrow> (st, Inl e)
      | Inr sites \<Rightarrow>
          (case start_sites env 0 sites st of
             (st1, Inl e) \<Rightarrow> (st1, Inl e)
           | (st1, Inr u) \<Rightarrow> serve env a st1))"

definition try_finally :: "env \<Rightarrow> run_args \<Rightarrow> state \<Rightarrow> state \<times> (exc + unit)" where
  "try_finally env a st =
     (case try_body env a st of
        (st1, r) \<Rightarrow>
          (case runner_cleanup env st1 of
             (st2, Inl e) \<Rightarrow> (st2, Inl e)
           | (st2, Inr u) \<Rightarrow> (st2, r)))"

definition loop_teardown :: "env \<Rightarrow> state \<Rightarrow> state \<times> (exc + unit)" where
  "loop_teardown env st =
     (case (if PY_36 env \<and> has_shutdown_asyncgens env
            then call ShutdownAsyncgens (shutdown_asyncgens_result env) st
            else (st, Inr ())) of
        (st1, Inl e) \<Rightarrow> (st1, Inl e)
      | (st1, Inr u) \<Rightarrow> call Close (close_result env) st1)"

definition run_app_from :: "env \<Rightarrow> run_args \<Rightarrow> state \<Rightarrow> state \<times> (exc + unit)" where
  "run_app_from env a st =
     (case (if app_is_coroutine env then call AwaitApp (app_result env) st
            else (st, Inr ())) of
        (st0, Inl e) \<Rightarrow> (st0, Inl e)
      | (st0, Inr u) \<Rightarrow>
          (case call Setup (setup_result env) st0 of
             (st1, Inl e) \<Rightarrow> (st1, Inl e)
           | (st1, Inr u) \<Rightarrow>
               (case try_finally env a st1 of
                  (st2, Inl e) \<Rightarrow> (st2, Inl e)
                | (st2, Inr u) \<Rightarrow> loop_teardown env st2)))"

definition run_app :: "env \<Rightarrow> run_args \<Rightarrow> state \<times> (exc + unit)" where
  "run_app env a = run_app_from env a init_state"

subsection \<open>The command line (lines 155 to 210)\<close>

text \<open>
  \<^verbatim>\<open>ArgumentParser\<close> belongs to the standard library. A command line is taken as
  already split into the positional argument, the values of the flags that were given,
  and the arguments the parser does not know; \<open>parse_known_args\<close> fills in the
  defaults that \<^verbatim>\<open>main\<close> declares. \<^verbatim>\<open>arg_parser.error(msg)\<close> ends the process
  with status 2 and the diagnostic \<^verbatim>\<open>msg\<close>; \<^verbatim>\<open>arg_parser.exit(message=msg)\<close> ends it
  with status 0.
\<close>

record cmdline =
  positional :: string
  flag_hostname :: "string option"
  flag_port :: "int option"
  flag_path :: "string option"
  unknown_args :: "string list"

record namespace =
  entry_func :: string
  hostname :: string
  port_arg :: int
  path_arg :: "string option"

definition parse_known_args :: "cmdline \<Rightarrow> namespace \<times> string list" where
  "parse_known_args c =
     (\<lparr>entry_func = positional c,
       hostname = (case flag_hostname c of None \<Rightarrow> ''localhost'' | Some h \<Rightarrow> h),
       port_arg = (case flag_port c of None \<Rightarrow> 8080 | Some p \<Rightarrow> p),
       path_arg = flag_path c\<rparr>,
      unknown_args c)"

datatype outcome = SystemExit int string | Uncaught exc

definition parser_error :: "string \<Rightarrow> outcome" where
  "parser_error msg = SystemExit 2 msg"

definition parser_exit :: "string \<Rightarrow> outcome" where
  "parser_exit msg = SystemExit 0 msg"

fun str_partition :: "char \<Rightarrow> string \<Rightarrow> string \<times> string \<times> string" where
  "str_partition c [] = ([], [], [])"
| "str_partition c (x # xs) =
     (if x = c then ([], [c], xs)
      else (case str_partition c xs of (h, s, t) \<Rightarrow> (x # h, s, t)))"

definition quoted :: "string \<Rightarrow> string" where
  "quoted s = [CHR 0x27] @ s @ [CHR 0x27]"

text \<open>
  \<open>quoted\<close> writes a string between single quotes; it is what \<^verbatim>\<open>%r\<close> prints for a
  string that holds no quote, backslash or unprintable character.
\<close>

record main_env =
  import_result :: "string \<Rightarrow> exc option"
  has_attribute :: "string \<Rightarrow> string \<Rightarrow> bool"
  has_AF_UNIX :: bool
  factory_result :: "exc option"
  run_env :: env

text \<open>
  \<open>import_result m mod\<close> is the outcome of \<^verbatim>\<open>import_module(mod)\<close>,
  \<open>has_attribute m mod f\<close> says whether \<^verbatim>\<open>getattr(module, f)\<close> finds the function,
  \<open>has_AF_UNIX\<close> is \<^verbatim>\<open>hasattr(socket, 'AF_UNIX')\<close>, \<open>factory_result\<close> is the
  outcome of calling the entry function, and \<open>run_env\<close> is the environment of the run
  of \<^verbatim>\<open>run_app\<close>.
\<close>

definition main_run_args :: "namespace \<Rightarrow> run_args" where
  "main_run_args args =
     \<lparr>host = Some (Single (hostname args)),
      port = Some (port_arg args),
      path = map_option Single (path_arg args),
      sock = None,
      shutdown_timeout = 60,
      ssl_context = None,
      print = True,
      backlog = 128,
      reuse_address = None,
      reuse_port = None\<rparr>"

definition main :: "main_env \<Rightarrow> cmdline \<Rightarrow> state \<times> outcome" where
  "main m c =
     (case parse_known_args c of
        (args, extra_argv) \<Rightarrow>
     (case str_partition CHR '':'' (entry_func args) of
        (mod_str, sep, func_str) \<Rightarrow>
          if func_str = [] \<or> mod_str = [] then
            (init_state,
             parser_error (quoted ''entry-func'' @ '' not in '' @ quoted ''module:function''
               @ '' syntax''))
          else if prefix ''.'' mod_str then
            (init_state, parser_error ''relative module names not supported'')
          else
            (case call (ImportModule mod_str) (import_result m mod_str) init_state of
               (st1, Inl e) \<Rightarrow>
                 (case e of
                    ImportError ex \<Rightarrow>
                      (st1, parser_error (''unable to import '' @ mod_str @ '': '' @ ex))
                  | _ \<Rightarrow> (st1, Uncaught e))
             | (st1, Inr u) \<Rightarrow>
                 if \<not> has_attribute m mod_str func_str then
                   (st1,
                    parser_error (''module '' @ quoted mod_str @ '' has no attribute ''
                      @ quoted func_str))
                 else if path_arg args \<noteq> None \<and> \<not> has_AF_UNIX m then
                   (st1,
                    parser_error
                      ''file system paths not supported by your operating environment'')
                 else
                   (case call BasicConfig None st1 of
                      (st2, r2) \<Rightarrow>
                   (case call CallFactory (factory_result m) st2 of
                      (st3, Inl e) \<Rightarrow> (st3, Uncaught e)
                    | (st3, Inr u) \<Rightarrow>
                        (case run_app_from (run_env m) (main_run_args args) st3 of
                           (st4, Inl e) \<Rightarrow> (st4, Uncaught e)
                         | (st4, Inr u) \<Rightarrow>
                             (st4, parser_exit (''Stopped'' @ [CHR 0x0A]))))))))"

subsection \<open>The resolution rules as the specification words them\<close>

text \<open>
  The four rules of the endpoint set builder, each written as the list of endpoints
  it contributes, and their union in the order of the rules.
\<close>

definition spec_rule1 :: "run_args \<Rightarrow> site list" where
  "spec_rule1 a =
     (case host a of
        None \<Rightarrow> []
      | Some (Single h) \<Rightarrow> [tcp_site a (Some h)]
      | Some (Several hs) \<Rightarrow> map (\<lambda>h. tcp_site a (Some h)) hs)"

definition spec_rule2 :: "run_args \<Rightarrow> site list" where
  "spec_rule2 a =
     (if host a = None \<and> ((path a = None \<and> sock a = None) \<or> port a \<noteq> None)
      then [tcp_site a None] else [])"

definition spec_rule3 :: "run_args \<Rightarrow> site list" where
  "spec_rule3 a =
     (case path a of
        None \<Rightarrow> []
      | Some (Single f) \<Rightarrow> [unix_site a f]
      | Some (Several fs) \<Rightarrow> map (unix_site a) fs)"

definition spec_rule4 :: "run_args \<Rightarrow> site list" where
  "spec_rule4 a =
     (case sock a of
        None \<Rightarrow> []
      | Some (Single s) \<Rightarrow> [sock_site a s]
      | Some (Several ss) \<Rightarrow> map (sock_site a) ss)"

definition spec_endpoint_set :: "run_args \<Rightarrow> site list" where
  "spec_endpoint_set a = spec_rule1 a @ spec_rule2 a @ spec_rule3 a @ spec_rule4 a"

subsection \<open>Reading a trace\<close>

fun started :: "event list \<Rightarrow> site list" where
  "started [] = []"
| "started (Start s # evs) = s # started evs"
| "started (ev # evs) = started evs"

fun stopped :: "event list \<Rightarrow> site list" where
  "stopped [] = []"
| "stopped (Stop s # evs) = s # stopped evs"
| "stopped (ev # evs) = stopped evs"

fun is_Print :: "event \<Rightarrow> bool" where
  "is_Print (Print msg) = True"
| "is_Print ev = False"

subsection \<open>Concrete runs\<close>

text \<open>
  An environment in which every call returns and a keyboard interrupt ends the wait, and
  the arguments of a call \<^verbatim>\<open>run_app(app)\<close> with every keyword at its default.
\<close>

definition calm_env :: env where
  "calm_env =
     \<lparr>app_is_coroutine = False,
      app_result = None,
      setup_result = None,
      construct_result = (\<lambda>s. None),
      start_result = (\<lambda>i. None),
      site_name = (\<lambda>s. ''site''),
      print_result = None,
      run_forever_result = Some KeyboardInterrupt,
      cleanup_result = None,
      PY_36 = True,
      has_shutdown_asyncgens = True,
      shutdown_asyncgens_result = None,
      close_result = None\<rparr>"

definition plain_args :: run_args where
  "plain_args =
     \<lparr>host = None, port = None, path = None, sock = None, shutdown_timeout = 60,
      ssl_context = None, print = True, backlog = 128, reuse_address = None,
      reuse_port = None\<rparr>"

text \<open>
  An environment of \<^verbatim>\<open>main\<close> in which every module loads, every attribute is found,
  Unix domain sockets exist and the entry function returns an application.
\<close>

definition calm_main_env :: main_env where
  "calm_main_env =
     \<lparr>import_result = (\<lambda>m. None),
      has_attribute = (\<lambda>m f. True),
      has_AF_UNIX = True,
      factory_result = None,
      run_env = calm_env\<rparr>"

section \<open>The list of sites\<close>

subsection \<open>The builder computes the union of the rules\<close>
lemma append_each_ok:
  "\<forall>x\<in>set xs. construct_result env (mk x) = None \<Longrightarrow>
   append_each env mk xs sites = Inr (sites @ map mk xs)"
  by (induction xs arbitrary: sites) (simp_all add: append_site_def)

lemma build_host_ok:
  "\<forall>s\<in>set (spec_rule1 a @ spec_rule2 a). construct_result env s = None \<Longrightarrow>
   build_host env a sites = Inr (sites @ spec_rule1 a @ spec_rule2 a)"
  by (auto simp: build_host_def spec_rule1_def spec_rule2_def append_site_def append_each_ok
      split: option.splits one_or_many.splits)

lemma build_path_ok:
  "\<forall>s\<in>set (spec_rule3 a). construct_result env s = None \<Longrightarrow>
   build_path env a sites = Inr (sites @ spec_rule3 a)"
  by (auto simp: build_path_def spec_rule3_def append_site_def append_each_ok
      split: option.splits one_or_many.splits)

lemma build_sock_ok:
  "\<forall>s\<in>set (spec_rule4 a). construct_result env s = None \<Longrightarrow>
   build_sock env a sites = Inr (sites @ spec_rule4 a)"
  by (auto simp: build_sock_def spec_rule4_def append_site_def append_each_ok
      split: option.splits one_or_many.splits)

lemma build_sites_ok:
  assumes "\<forall>s\<in>set (spec_endpoint_set a). construct_result env s = None"
  shows "build_sites env a = Inr (spec_endpoint_set a)"
proof -
  from assms have h: "\<forall>s\<in>set (spec_rule1 a @ spec_rule2 a). construct_result env s = None"
    and p: "\<forall>s\<in>set (spec_rule3 a). construct_result env s = None"
    and s: "\<forall>s\<in>set (spec_rule4 a). construct_result env s = None"
    by (auto simp: spec_endpoint_set_def)
  show ?thesis
    by (simp add: build_sites_def build_host_ok [OF h] build_path_ok [OF p]
        build_sock_ok [OF s] spec_endpoint_set_def)
qed

lemma append_each_Inr:
  "append_each env mk xs sites = Inr r \<Longrightarrow> r = sites @ map mk xs"
proof (induction xs arbitrary: sites)
  case Nil
  then show ?case by simp
next
  case (Cons x xs)
  from Cons.prems obtain sites' where a: "append_site env (mk x) sites = Inr sites'"
    and b: "append_each env mk xs sites' = Inr r"
    by (auto split: sum.splits)
  from a have "sites' = sites @ [mk x]"
    by (auto simp: append_site_def split: option.splits)
  with Cons.IH [OF b] show ?case by simp
qed

lemma build_sites_Inr:
  assumes "build_sites env a = Inr sites"
  shows "sites = spec_endpoint_set a"
  using assms
  by (auto simp: build_sites_def build_host_def build_path_def build_sock_def append_site_def
      spec_endpoint_set_def spec_rule1_def spec_rule2_def spec_rule3_def spec_rule4_def
      split: option.splits one_or_many.splits sum.splits if_splits dest!: append_each_Inr)


lemma filter_tcp_rule1: "filter is_TCPSite (spec_rule1 a) = spec_rule1 a"
  by (auto simp: spec_rule1_def tcp_site_def filter_map o_def split: option.splits one_or_many.splits)

lemma filter_tcp_rule2: "filter is_TCPSite (spec_rule2 a) = spec_rule2 a"
  by (simp add: spec_rule2_def tcp_site_def)

lemma filter_tcp_rule3: "filter is_TCPSite (spec_rule3 a) = []"
  by (auto simp: spec_rule3_def unix_site_def filter_map o_def split: option.splits one_or_many.splits)

lemma filter_tcp_rule4: "filter is_TCPSite (spec_rule4 a) = []"
  by (auto simp: spec_rule4_def sock_site_def filter_map o_def split: option.splits one_or_many.splits)

lemma filter_unix_rules:
  "filter is_UnixSite (spec_rule1 a) = []" "filter is_UnixSite (spec_rule2 a) = []"
  "filter is_UnixSite (spec_rule3 a) = spec_rule3 a" "filter is_UnixSite (spec_rule4 a) = []"
  by (auto simp: spec_rule1_def spec_rule2_def spec_rule3_def spec_rule4_def
      tcp_site_def unix_site_def sock_site_def filter_map o_def
      split: option.splits one_or_many.splits)

lemma filter_sock_rules:
  "filter is_SockSite (spec_rule1 a) = []" "filter is_SockSite (spec_rule2 a) = []"
  "filter is_SockSite (spec_rule3 a) = []" "filter is_SockSite (spec_rule4 a) = spec_rule4 a"
  by (auto simp: spec_rule1_def spec_rule2_def spec_rule3_def spec_rule4_def
      tcp_site_def unix_site_def sock_site_def filter_map o_def
      split: option.splits one_or_many.splits)

text \<open>
  Claim C1. Whatever the \<^verbatim>\<open>host\<close>, \<^verbatim>\<open>port\<close>, \<^verbatim>\<open>path\<close> and \<^verbatim>\<open>sock\<close>
  arguments are, when no site constructor raises the list that \<^verbatim>\<open>run_app\<close> builds
  is the union of the endpoints of the matching rules, in the order of the rules. In
  particular: one host string gives one \<^verbatim>\<open>TCPSite\<close> on that host and the port; a
  sequence of hosts gives one \<^verbatim>\<open>TCPSite\<close> per element, all on the same port; with
  no host, no path and no socket the list is one \<^verbatim>\<open>TCPSite\<close> without a host on the
  given port; with no host, no port and one path string there is one \<^verbatim>\<open>UnixSite\<close>
  and no \<^verbatim>\<open>TCPSite\<close>; and the \<^verbatim>\<open>UnixSite\<close>s are one per path and the
  \<^verbatim>\<open>SockSite\<close>s one per socket, whatever else is built.
\<close>

theorem build_sites_union:
  assumes "\<forall>s\<in>set (spec_endpoint_set a). construct_result env s = None"
  shows "\<exists>sites. build_sites env a = Inr sites
     \<and> sites = spec_endpoint_set a
     \<and> (\<forall>h. host a = Some (Single h) \<longrightarrow> filter is_TCPSite sites = [tcp_site a (Some h)])
     \<and> (\<forall>hs. host a = Some (Several hs) \<longrightarrow>
          filter is_TCPSite sites = map (\<lambda>h. tcp_site a (Some h)) hs)
     \<and> (host a = None \<and> path a = None \<and> sock a = None \<longrightarrow> sites = [tcp_site a None])
     \<and> (\<forall>f. host a = None \<and> port a = None \<and> path a = Some (Single f) \<longrightarrow>
          filter is_UnixSite sites = [unix_site a f] \<and> filter is_TCPSite sites = [])
     \<and> filter is_UnixSite sites =
          (case path a of None \<Rightarrow> [] | Some (Single f) \<Rightarrow> [unix_site a f]
           | Some (Several fs) \<Rightarrow> map (unix_site a) fs)
     \<and> filter is_SockSite sites =
          (case sock a of None \<Rightarrow> [] | Some (Single s) \<Rightarrow> [sock_site a s]
           | Some (Several ss) \<Rightarrow> map (sock_site a) ss)"
proof -
  have b: "build_sites env a = Inr (spec_endpoint_set a)"
    by (rule build_sites_ok [OF assms])
  have t: "filter is_TCPSite (spec_endpoint_set a) = spec_rule1 a @ spec_rule2 a"
    by (simp add: spec_endpoint_set_def filter_tcp_rule1 filter_tcp_rule2 filter_tcp_rule3
        filter_tcp_rule4)
  have u: "filter is_UnixSite (spec_endpoint_set a) = spec_rule3 a"
    by (simp add: spec_endpoint_set_def filter_unix_rules)
  have k: "filter is_SockSite (spec_endpoint_set a) = spec_rule4 a"
    by (simp add: spec_endpoint_set_def filter_sock_rules)
  have 1: "\<forall>h. host a = Some (Single h) \<longrightarrow>
      filter is_TCPSite (spec_endpoint_set a) = [tcp_site a (Some h)]"
    by (simp add: t spec_rule1_def spec_rule2_def)
  have 2: "\<forall>hs. host a = Some (Several hs) \<longrightarrow>
      filter is_TCPSite (spec_endpoint_set a) = map (\<lambda>h. tcp_site a (Some h)) hs"
    by (simp add: t spec_rule1_def spec_rule2_def)
  have 3: "host a = None \<and> path a = None \<and> sock a = None \<longrightarrow>
      spec_endpoint_set a = [tcp_site a None]"
    by (simp add: spec_endpoint_set_def spec_rule1_def spec_rule2_def spec_rule3_def
        spec_rule4_def)
  have 4: "\<forall>f. host a = None \<and> port a = None \<and> path a = Some (Single f) \<longrightarrow>
      filter is_UnixSite (spec_endpoint_set a) = [unix_site a f]
      \<and> filter is_TCPSite (spec_endpoint_set a) = []"
    by (simp add: t u spec_rule1_def spec_rule2_def spec_rule3_def)
  have 5: "filter is_UnixSite (spec_endpoint_set a) =
          (case path a of None \<Rightarrow> [] | Some (Single f) \<Rightarrow> [unix_site a f]
           | Some (Several fs) \<Rightarrow> map (unix_site a) fs)"
    by (simp add: u spec_rule3_def)
  have 6: "filter is_SockSite (spec_endpoint_set a) =
          (case sock a of None \<Rightarrow> [] | Some (Single s) \<Rightarrow> [sock_site a s]
           | Some (Several ss) \<Rightarrow> map (sock_site a) ss)"
    by (simp add: k spec_rule4_def)
  from b 1 2 3 4 5 6 show ?thesis by blast
qed

theorem build_sites_union_witness:
  "build_sites calm_env (plain_args\<lparr>host := Some (Several [''a'', ''b'']), port := Some 9\<rparr>) =
     Inr [TCPSite (Some ''a'') (Some 9) 60 None 128 None None,
          TCPSite (Some ''b'') (Some 9) 60 None 128 None None]"
  using build_sites_union
    [of "plain_args\<lparr>host := Some (Several [''a'', ''b'']), port := Some 9\<rparr>" calm_env]
  by (simp add: calm_env_def plain_args_def spec_endpoint_set_def spec_rule1_def
      spec_rule2_def spec_rule3_def spec_rule4_def tcp_site_def)

subsection \<open>When the list is empty\<close>

text \<open>
  Claim C2, as stated, fails: a call \<^verbatim>\<open>run_app(app, host=[])\<close> takes the branch for a
  sequence of hosts, whose loop body never runs, and the \<^verbatim>\<open>elif\<close> for the wildcard
  site is skipped because a host was given. The list of sites is empty.
\<close>

theorem build_sites_empty_host_list:
  "build_sites calm_env (plain_args\<lparr>host := Some (Several [])\<rparr>) = Inr []"
  by (simp add: build_sites_def build_host_def build_path_def build_sock_def
      plain_args_def)

lemma endpoint_set_nonempty:
  assumes "host a \<noteq> Some (Several [])" and "path a \<noteq> Some (Several [])"
    and "sock a \<noteq> Some (Several [])"
  shows "spec_endpoint_set a \<noteq> []"
proof (cases "host a")
  case None
  show ?thesis
  proof (cases "path a = None \<and> sock a = None")
    case True
    with None show ?thesis by (simp add: spec_endpoint_set_def spec_rule2_def)
  next
    case False
    then have "spec_rule3 a \<noteq> [] \<or> spec_rule4 a \<noteq> []"
      using assms(2,3)
      by (auto simp: spec_rule3_def spec_rule4_def split: option.splits one_or_many.splits)
    then show ?thesis by (auto simp: spec_endpoint_set_def)
  qed
next
  case (Some h)
  with assms(1) have "spec_rule1 a \<noteq> []"
    by (auto simp: spec_rule1_def split: one_or_many.splits)
  then show ?thesis by (simp add: spec_endpoint_set_def)
qed

text \<open>
  Claim C2, amended. For every combination of arguments in which no supplied
  \<^verbatim>\<open>host\<close>, \<^verbatim>\<open>path\<close> or \<^verbatim>\<open>sock\<close> value is an empty sequence, the list of
  sites built (no constructor raising) is not empty; and when host, path and sock are
  all absent it is exactly one \<^verbatim>\<open>TCPSite\<close> built without a host, on the port that
  was passed (the constructor's default when none was).
\<close>

theorem build_sites_nonempty:
  assumes "\<forall>s\<in>set (spec_endpoint_set a). construct_result env s = None"
    and "host a \<noteq> Some (Several [])" and "path a \<noteq> Some (Several [])"
    and "sock a \<noteq> Some (Several [])"
  shows "(\<exists>s sites. build_sites env a = Inr (s # sites))
     \<and> (host a = None \<and> path a = None \<and> sock a = None \<longrightarrow>
          build_sites env a = Inr [tcp_site a None])"
proof -
  have b: "build_sites env a = Inr (spec_endpoint_set a)"
    by (rule build_sites_ok [OF assms(1)])
  from endpoint_set_nonempty [OF assms(2,3,4)]
  obtain s sites where "spec_endpoint_set a = s # sites"
    by (cases "spec_endpoint_set a") auto
  with b have 1: "\<exists>s sites. build_sites env a = Inr (s # sites)" by simp
  have 2: "host a = None \<and> path a = None \<and> sock a = None \<longrightarrow>
          build_sites env a = Inr [tcp_site a None]"
    by (simp add: b spec_endpoint_set_def spec_rule1_def spec_rule2_def spec_rule3_def
        spec_rule4_def)
  from 1 2 show ?thesis by blast
qed

theorem build_sites_nonempty_witness:
  "build_sites calm_env (plain_args\<lparr>port := Some 9\<rparr>) =
     Inr [TCPSite None (Some 9) 60 None 128 None None]"
  using build_sites_nonempty [of "plain_args\<lparr>port := Some 9\<rparr>" calm_env]
  by (simp add: calm_env_def plain_args_def tcp_site_def)

subsection \<open>The wildcard site\<close>

lemma rules34_not_tcp: "s \<in> set (spec_rule3 a @ spec_rule4 a) \<Longrightarrow> \<not> is_TCPSite s"
proof -
  have "filter is_TCPSite (spec_rule3 a @ spec_rule4 a) = []"
    by (simp add: filter_tcp_rule3 filter_tcp_rule4)
  then show "s \<in> set (spec_rule3 a @ spec_rule4 a) \<Longrightarrow> \<not> is_TCPSite s"
    unfolding filter_empty_conv by blast
qed

text \<open>
  Claim C3. With no host, a port that is supplied makes \<^verbatim>\<open>run_app\<close> build one
  \<^verbatim>\<open>TCPSite\<close> without a host on that port, also when a path or a socket is supplied:
  the list is that site followed by the \<^verbatim>\<open>UnixSite\<close>s and \<^verbatim>\<open>SockSite\<close>s.
  With no host and no port, but a path or a socket, the list holds the
  \<^verbatim>\<open>UnixSite\<close>s and \<^verbatim>\<open>SockSite\<close>s only, none of which is a \<^verbatim>\<open>TCPSite\<close>.
\<close>

theorem wildcard_tcp_site_iff_port:
  assumes "\<forall>s\<in>set (spec_endpoint_set a). construct_result env s = None"
    and "host a = None"
  shows "(port a \<noteq> None \<longrightarrow>
            build_sites env a = Inr (tcp_site a None # spec_rule3 a @ spec_rule4 a))
     \<and> (port a = None \<and> (path a \<noteq> None \<or> sock a \<noteq> None) \<longrightarrow>
            build_sites env a = Inr (spec_rule3 a @ spec_rule4 a))
     \<and> (\<forall>s\<in>set (spec_rule3 a @ spec_rule4 a). \<not> is_TCPSite s)"
proof -
  have b: "build_sites env a = Inr (spec_endpoint_set a)"
    by (rule build_sites_ok [OF assms(1)])
  have 1: "port a \<noteq> None \<longrightarrow>
            build_sites env a = Inr (tcp_site a None # spec_rule3 a @ spec_rule4 a)"
    using assms(2) by (simp add: b spec_endpoint_set_def spec_rule1_def spec_rule2_def)
  have 2: "port a = None \<and> (path a \<noteq> None \<or> sock a \<noteq> None) \<longrightarrow>
            build_sites env a = Inr (spec_rule3 a @ spec_rule4 a)"
    using assms(2) by (auto simp: b spec_endpoint_set_def spec_rule1_def spec_rule2_def)
  have 3: "\<forall>s\<in>set (spec_rule3 a @ spec_rule4 a). \<not> is_TCPSite s"
    using rules34_not_tcp by blast
  from 1 2 3 show ?thesis by blast
qed

theorem wildcard_tcp_site_iff_port_witness:
  "build_sites calm_env (plain_args\<lparr>port := Some 9, path := Some (Single ''/x''),
       sock := Some (Single 3)\<rparr>) =
     Inr [TCPSite None (Some 9) 60 None 128 None None, UnixSite ''/x'' 60 None 128,
          SockSite 3 60 None 128]
   \<and> build_sites calm_env (plain_args\<lparr>path := Some (Single ''/x'')\<rparr>) =
     Inr [UnixSite ''/x'' 60 None 128]"
  using wildcard_tcp_site_iff_port [of "plain_args\<lparr>port := Some 9,
      path := Some (Single ''/x''), sock := Some (Single 3)\<rparr>" calm_env]
    wildcard_tcp_site_iff_port [of "plain_args\<lparr>path := Some (Single ''/x'')\<rparr>" calm_env]
  by (simp add: calm_env_def plain_args_def tcp_site_def unix_site_def sock_site_def
      spec_rule3_def spec_rule4_def)

section \<open>Runs\<close>

subsection \<open>Traces of the phases of a run\<close>

lemma started_append: "started (xs @ ys) = started xs @ started ys"
  by (induction xs rule: started.induct) simp_all

lemma stopped_append: "stopped (xs @ ys) = stopped xs @ stopped ys"
  by (induction xs rule: stopped.induct) simp_all

lemma started_map_Start: "started (map Start ss) = ss"
  by (induction ss) simp_all

lemma started_map_Stop: "started (map Stop ss) = []"
  by (induction ss) simp_all

lemma stopped_map_Start: "stopped (map Start ss) = []"
  by (induction ss) simp_all

lemma stopped_map_Stop: "stopped (map Stop ss) = ss"
  by (induction ss) simp_all

lemma start_sites_all_ok:
  "\<forall>j<length ss. start_result env (i + j) = None \<Longrightarrow>
   start_sites env i ss st =
     (st\<lparr>trace := trace st @ map Start ss, runner_sites := runner_sites st @ ss\<rparr>, Inr ())"
proof (induction ss arbitrary: i st)
  case Nil
  then show ?case by simp
next
  case (Cons s ss)
  from Cons.prems have h: "start_result env i = None" by force
  have t: "\<forall>j<length ss. start_result env (Suc i + j) = None"
  proof (intro allI impI)
    fix j assume "j < length ss"
    then have "Suc j < length (s # ss)" by simp
    with Cons.prems have "start_result env (i + Suc j) = None" by blast
    then show "start_result env (Suc i + j) = None" by simp
  qed
  show ?case
    by (simp add: site_start_def h Cons.IH [OF t])
qed

lemma start_sites_first_failure:
  "k < length ss \<Longrightarrow> \<forall>j<k. start_result env (i + j) = None \<Longrightarrow>
   start_result env (i + k) = Some e \<Longrightarrow>
   start_sites env i ss st =
     (st\<lparr>trace := trace st @ map Start (take (Suc k) ss),
         runner_sites := runner_sites st @ take k ss\<rparr>, Inl e)"
proof (induction ss arbitrary: i k st)
  case Nil
  then show ?case by simp
next
  case (Cons s ss)
  show ?case
  proof (cases k)
    case 0
    with Cons.prems show ?thesis by (simp add: site_start_def)
  next
    case (Suc k')
    with Cons.prems have h: "start_result env i = None" by force
    from Suc Cons.prems have l: "k' < length ss" by simp
    have t: "\<forall>j<k'. start_result env (Suc i + j) = None"
    proof (intro allI impI)
      fix j assume "j < k'"
      then have "Suc j < k" using Suc by simp
      with Cons.prems have "start_result env (i + Suc j) = None" by blast
      then show "start_result env (Suc i + j) = None" by simp
    qed
    from Suc Cons.prems have f: "start_result env (Suc i + k') = Some e" by simp
    show ?thesis
      by (simp add: site_start_def h Suc Cons.IH [OF l t f])
  qed
qed

lemma first_failure_cases:
  fixes f :: "nat \<Rightarrow> 'a option"
  shows "(\<forall>j<n. f j = None) \<or> (\<exists>k<n. (\<forall>j<k. f j = None) \<and> f k \<noteq> None)"
proof (induction n)
  case 0
  then show ?case by simp
next
  case (Suc n)
  then show ?case
  proof
    assume a: "\<forall>j<n. f j = None"
    show ?thesis
    proof (cases "f n = None")
      case True
      with a have "\<forall>j<Suc n. f j = None" by (simp add: less_Suc_eq)
      then show ?thesis by blast
    next
      case False
      with a show ?thesis by blast
    qed
  next
    assume "\<exists>k<n. (\<forall>j<k. f j = None) \<and> f k \<noteq> None"
    then obtain k where "k < n" "\<forall>j<k. f j = None" "f k \<noteq> None" by blast
    then have "k < Suc n \<and> (\<forall>j<k. f j = None) \<and> f k \<noteq> None" by simp
    then show ?thesis by blast
  qed
qed

lemma start_sites_cleanups:
  "count_list (trace (fst (start_sites env i ss st))) Cleanup = count_list (trace st) Cleanup"
  by (induction ss arbitrary: i st) (simp_all add: site_start_def split: option.splits)

lemma serve_cleanups:
  "count_list (trace (fst (serve env a st))) Cleanup = count_list (trace st) Cleanup"
  by (simp add: serve_def call_def split: option.splits sum.splits prod.splits)

lemma try_body_cleanups:
  "count_list (trace (fst (try_body env a st))) Cleanup = count_list (trace st) Cleanup"
proof (cases "build_sites env a")
  case (Inl e)
  then show ?thesis by (simp add: try_body_def)
next
  case (Inr sites)
  show ?thesis
  proof (cases "start_sites env 0 sites st")
    case (Pair st1 r)
    with start_sites_cleanups [of env 0 sites st]
    have c: "count_list (trace st1) Cleanup = count_list (trace st) Cleanup" by simp
    show ?thesis
      using serve_cleanups [of env a st1]
      by (cases r) (simp_all add: try_body_def Inr Pair c)
  qed
qed

lemma count_list_map_Stop: "count_list (map Stop ss) Cleanup = 0"
  by (induction ss) simp_all

lemma try_finally_cleanups:
  "count_list (trace (fst (try_finally env a st))) Cleanup = Suc (count_list (trace st) Cleanup)"
proof (cases "try_body env a st")
  case (Pair st1 r)
  with try_body_cleanups [of env a st]
  have c: "count_list (trace st1) Cleanup = count_list (trace st) Cleanup" by simp
  show ?thesis
    by (simp add: try_finally_def Pair runner_cleanup_def c count_list_map_Stop
        split: option.splits)
qed

lemma loop_teardown_cleanups:
  "count_list (trace (fst (loop_teardown env st))) Cleanup = count_list (trace st) Cleanup"
  by (simp add: loop_teardown_def call_def split: option.splits)

lemma run_app_from_cleanups:
  "count_list (trace (fst (run_app_from env a st))) Cleanup =
     count_list (trace st) Cleanup +
     (if (app_is_coroutine env \<and> app_result env \<noteq> None) \<or> setup_result env \<noteq> None
      then 0 else 1)"
proof -
  define st0 where "st0 = (if app_is_coroutine env then st\<lparr>trace := trace st @ [AwaitApp]\<rparr> else st)"
  define st1 where "st1 = st0\<lparr>trace := trace st0 @ [Setup]\<rparr>"
  have c1: "count_list (trace st1) Cleanup = count_list (trace st) Cleanup"
    by (simp add: st1_def st0_def)
  show ?thesis
  proof (cases "(app_is_coroutine env \<and> app_result env \<noteq> None) \<or> setup_result env \<noteq> None")
    case True
    then show ?thesis
      by (auto simp: run_app_from_def call_def split: option.splits)
  next
    case False
    then have r: "run_app_from env a st =
        (case try_finally env a st1 of
           (st2, Inl e) \<Rightarrow> (st2, Inl e)
         | (st2, Inr u) \<Rightarrow> loop_teardown env st2)"
      by (auto simp: run_app_from_def call_def st1_def st0_def)
    show ?thesis
    proof (cases "try_finally env a st1")
      case (Pair st2 r2)
      with try_finally_cleanups [of env a st1]
      have c2: "count_list (trace st2) Cleanup = Suc (count_list (trace st) Cleanup)"
        by (simp add: c1)
      show ?thesis
        using False loop_teardown_cleanups [of env st2]
        by (cases r2) (simp_all add: r Pair c2)
    qed
  qed
qed

subsection \<open>The result of a run, phase by phase\<close>

lemma serve_eq:
  "serve env a st =
     (st\<lparr>trace := trace st @ (if print a then [Print (report env st)] else [])
          @ (if print a \<and> print_result env \<noteq> None then [] else [RunForever])\<rparr>,
      case (if print a \<and> print_result env \<noteq> None then print_result env
            else run_forever_result env) of
        None \<Rightarrow> Inr ()
      | Some e \<Rightarrow> if is_interrupt e then Inr () else Inl e)"
  by (auto simp: serve_def call_def split: option.splits)

lemma run_app_from_setup_ok:
  assumes "app_is_coroutine env \<longrightarrow> app_result env = None" and "setup_result env = None"
  shows "run_app_from env a st =
     (case try_finally env a
             (st\<lparr>trace := trace st @ (if app_is_coroutine env then [AwaitApp] else [])
                 @ [Setup]\<rparr>) of
        (st2, Inl e) \<Rightarrow> (st2, Inl e)
      | (st2, Inr u) \<Rightarrow> loop_teardown env st2)"
  using assms by (auto simp: run_app_from_def call_def)

lemma run_app_from_setup_raises:
  assumes "app_is_coroutine env \<longrightarrow> app_result env = None" and "setup_result env = Some e"
  shows "run_app_from env a st =
     (st\<lparr>trace := trace st @ (if app_is_coroutine env then [AwaitApp] else []) @ [Setup]\<rparr>,
      Inl e)"
  using assms by (auto simp: run_app_from_def call_def)

lemma try_finally_first_failure:
  assumes "build_sites env a = Inr sites" and "k < length sites"
    and "\<forall>j<k. start_result env j = None" and "start_result env k = Some e"
  shows "try_finally env a st =
     (st\<lparr>trace := trace st @ map Start (take (Suc k) sites) @ [Cleanup]
           @ map Stop (runner_sites st @ take k sites),
         runner_sites := []\<rparr>,
      Inl (case cleanup_result env of None \<Rightarrow> e | Some e' \<Rightarrow> e'))"
proof -
  have s: "start_sites env 0 sites st =
     (st\<lparr>trace := trace st @ map Start (take (Suc k) sites),
         runner_sites := runner_sites st @ take k sites\<rparr>, Inl e)"
    using assms(2,3,4) by (intro start_sites_first_failure) simp_all
  show ?thesis
    by (simp add: try_finally_def try_body_def assms(1) s runner_cleanup_def
        split: option.splits)
qed

lemma try_finally_all_started:
  assumes "build_sites env a = Inr sites" and "\<forall>j<length sites. start_result env j = None"
  shows "try_finally env a st =
     (case serve env a
             (st\<lparr>trace := trace st @ map Start sites,
                 runner_sites := runner_sites st @ sites\<rparr>) of
        (st1, r) \<Rightarrow>
          (case runner_cleanup env st1 of
             (st2, Inl e) \<Rightarrow> (st2, Inl e)
           | (st2, Inr u) \<Rightarrow> (st2, r)))"
proof -
  have s: "start_sites env 0 sites st =
     (st\<lparr>trace := trace st @ map Start sites, runner_sites := runner_sites st @ sites\<rparr>,
      Inr ())"
    using assms(2) by (intro start_sites_all_ok) simp
  show ?thesis
    by (simp add: try_finally_def try_body_def assms(1) s)
qed

lemma append_each_env:
  "construct_result env' = construct_result env \<Longrightarrow>
   append_each env' mk xs sites = append_each env mk xs sites"
  by (induction xs arbitrary: sites) (simp_all add: append_site_def split: option.splits)

lemma build_sites_env:
  assumes "construct_result env' = construct_result env"
  shows "build_sites env' a = build_sites env a"
proof -
  have s: "\<And>s sites. append_site env' s sites = append_site env s sites"
    by (simp add: append_site_def assms)
  have e: "\<And>mk xs sites. append_each env' mk xs sites = append_each env mk xs sites"
    by (rule append_each_env [OF assms])
  have h: "\<And>sites. build_host env' a sites = build_host env a sites"
    unfolding build_host_def s e by (rule refl)
  have p: "\<And>sites. build_path env' a sites = build_path env a sites"
    unfolding build_path_def s e by (rule refl)
  have k: "\<And>sites. build_sock env' a sites = build_sock env a sites"
    unfolding build_sock_def s e by (rule refl)
  show ?thesis
    unfolding build_sites_def h p k by (rule refl)
qed

lemma start_sites_env:
  "start_result env' = start_result env \<Longrightarrow>
   start_sites env' i ss st = start_sites env i ss st"
  by (induction ss arbitrary: i st) (simp_all add: site_start_def split: option.splits)

lemma serve_interrupt_as_return:
  assumes "run_forever_result env = Some e" and "is_interrupt e"
  shows "serve (env\<lparr>run_forever_result := None\<rparr>) a st = serve env a st"
  using assms by (simp add: serve_eq report_def)

lemma run_app_from_interrupt_as_return:
  assumes "run_forever_result env = Some e" and "is_interrupt e"
  shows "run_app_from (env\<lparr>run_forever_result := None\<rparr>) a st = run_app_from env a st"
proof -
  let ?env = "env\<lparr>run_forever_result := None\<rparr>"
  have b: "build_sites ?env a = build_sites env a"
    by (rule build_sites_env) simp
  have s: "\<And>i ss st. start_sites ?env i ss st = start_sites env i ss st"
    by (rule start_sites_env) simp
  have v: "\<And>st. serve ?env a st = serve env a st"
    by (rule serve_interrupt_as_return [OF assms])
  have t: "\<And>st. try_body ?env a st = try_body env a st"
    unfolding try_body_def b s v by (rule refl)
  have c: "\<And>st. runner_cleanup ?env st = runner_cleanup env st"
    by (simp add: runner_cleanup_def)
  have f: "\<And>st. try_finally ?env a st = try_finally env a st"
    unfolding try_finally_def t c by (rule refl)
  have l: "\<And>st. loop_teardown ?env st = loop_teardown env st"
    by (simp add: loop_teardown_def call_def split: option.splits)
  show ?thesis
    unfolding run_app_from_def f l
    by (simp add: call_def split: option.splits)
qed

lemma run_app_from_served:
  assumes "app_is_coroutine env \<longrightarrow> app_result env = None" and "setup_result env = None"
    and "build_sites env a = Inr sites" and "\<forall>j<length sites. start_result env j = None"
    and "print a \<longrightarrow> print_result env = None"
    and "run_forever_result env = Some e" and "is_interrupt e"
    and "cleanup_result env = None"
    and "PY_36 env \<and> has_shutdown_asyncgens env \<longrightarrow> shutdown_asyncgens_result env = None"
    and "close_result env = None"
  shows "run_app_from env a st =
     (st\<lparr>trace := trace st @ (if app_is_coroutine env then [AwaitApp] else []) @ [Setup]
           @ map Start sites
           @ (if print a
              then [Print (report env
                      (st\<lparr>trace := trace st
                            @ (if app_is_coroutine env then [AwaitApp] else []) @ [Setup]
                            @ map Start sites,
                          runner_sites := runner_sites st @ sites\<rparr>))]
              else [])
           @ [RunForever, Cleanup] @ map Stop (runner_sites st @ sites)
           @ (if PY_36 env \<and> has_shutdown_asyncgens env then [ShutdownAsyncgens] else [])
           @ [Close],
         runner_sites := []\<rparr>,
      Inr ())"
  using assms(1,2,5-)
  by (simp add: run_app_from_setup_ok [OF assms(1,2)]
      try_finally_all_started [OF assms(3,4)] serve_eq runner_cleanup_def
      loop_teardown_def call_def)

lemma run_app_from_first_failure:
  assumes "app_is_coroutine env \<longrightarrow> app_result env = None" and "setup_result env = None"
    and "build_sites env a = Inr sites" and "k < length sites"
    and "\<forall>j<k. start_result env j = None" and "start_result env k = Some e"
  shows "run_app_from env a st =
     (st\<lparr>trace := trace st @ (if app_is_coroutine env then [AwaitApp] else []) @ [Setup]
           @ map Start (take (Suc k) sites) @ [Cleanup]
           @ map Stop (runner_sites st @ take k sites),
         runner_sites := []\<rparr>,
      Inl (case cleanup_result env of None \<Rightarrow> e | Some e' \<Rightarrow> e'))"
  by (simp add: run_app_from_setup_ok [OF assms(1,2)]
      try_finally_first_failure [OF assms(3,4,5,6)])

lemma main_reaches_run_app:
  assumes "str_partition CHR '':'' (positional c) = (mod_str, sep, func_str)"
    and "func_str \<noteq> []" and "mod_str \<noteq> []" and "\<not> prefix ''.'' mod_str"
    and "import_result m mod_str = None" and "has_attribute m mod_str func_str"
    and "flag_path c = None \<or> has_AF_UNIX m" and "factory_result m = None"
  shows "main m c =
     (case run_app_from (run_env m) (main_run_args (fst (parse_known_args c)))
             \<lparr>trace = [ImportModule mod_str, BasicConfig, CallFactory], runner_sites = []\<rparr> of
        (st4, Inl e) \<Rightarrow> (st4, Uncaught e)
      | (st4, Inr u) \<Rightarrow> (st4, parser_exit (''Stopped'' @ [CHR 0x0A])))"
  using assms
  by (auto simp: main_def parse_known_args_def call_def init_state_def)

section \<open>Cleanup\<close>

subsection \<open>How often cleanup runs\<close>

text \<open>
  Claim C4, as stated, fails for a run in which \<^verbatim>\<open>runner.setup()\<close> raises: the call
  at line 84 stands before the \<^verbatim>\<open>try\<close> of line 88, so the \<^verbatim>\<open>finally\<close> clause
  does not cover it, and the error leaves \<^verbatim>\<open>run_app\<close> with no cleanup at all.
\<close>

theorem setup_raises_no_cleanup:
  "count_list (trace (fst (run_app (calm_env\<lparr>setup_result := Some (OtherError ''setup failed'')\<rparr>)
      plain_args))) Cleanup = 0
   \<and> snd (run_app (calm_env\<lparr>setup_result := Some (OtherError ''setup failed'')\<rparr>) plain_args) =
      Inl (OtherError ''setup failed'')"
  by (simp add: run_app_def run_app_from_def call_def init_state_def calm_env_def)

text \<open>
  Claim C4, amended. In every run of \<^verbatim>\<open>run_app\<close> in which awaiting the application
  (when it is a coroutine) and \<^verbatim>\<open>runner.setup()\<close> return, whether the run then
  returns after an interrupt or exits because a site constructor, a \<^verbatim>\<open>start()\<close>,
  the report or the wait raised, \<^verbatim>\<open>runner.cleanup()\<close> is called exactly once. In a
  run in which awaiting the application or \<^verbatim>\<open>runner.setup()\<close> raises, it is not
  called.
\<close>

theorem cleanup_exactly_once:
  "count_list (trace (fst (run_app env a))) Cleanup =
     (if (app_is_coroutine env \<and> app_result env \<noteq> None) \<or> setup_result env \<noteq> None
      then 0 else 1)"
  by (simp add: run_app_def run_app_from_cleanups init_state_def)

theorem cleanup_exactly_once_witness:
  "count_list (trace (fst (run_app calm_env plain_args))) Cleanup = 1
   \<and> count_list (trace (fst (run_app (calm_env\<lparr>start_result := (start_result calm_env)
        (0 := Some (OtherError ''address in use''))\<rparr>) plain_args))) Cleanup = 1"
  using cleanup_exactly_once [of calm_env plain_args]
    cleanup_exactly_once [of "calm_env\<lparr>start_result := (start_result calm_env)
        (0 := Some (OtherError ''address in use''))\<rparr>" plain_args]
  by (simp add: calm_env_def)

subsection \<open>A setup that raises\<close>

text \<open>
  Claim C5, as stated, fails in its second half: when \<^verbatim>\<open>runner.setup()\<close> raises, the
  whole run is the call of \<^verbatim>\<open>setup\<close>; no cleanup is attempted.
\<close>

theorem setup_raises_trace:
  "run_app (calm_env\<lparr>setup_result := Some (OtherError ''setup failed'')\<rparr>) plain_args =
     (\<lparr>trace = [Setup], runner_sites = []\<rparr>, Inl (OtherError ''setup failed''))"
  by (simp add: run_app_def run_app_from_def call_def init_state_def calm_env_def)

text \<open>
  Claim C5, amended. If \<^verbatim>\<open>runner.setup()\<close> raises, \<^verbatim>\<open>run_app\<close> starts no site
  (no \<^verbatim>\<open>start()\<close> call is made) and the error propagates to the caller at once;
  \<^verbatim>\<open>runner.cleanup()\<close> is not called.
\<close>

theorem setup_failure_propagates:
  assumes "app_is_coroutine env \<longrightarrow> app_result env = None" and "setup_result env = Some e"
  shows "run_app env a =
       (\<lparr>trace = (if app_is_coroutine env then [AwaitApp] else []) @ [Setup],
         runner_sites = []\<rparr>, Inl e)
     \<and> started (trace (fst (run_app env a))) = []
     \<and> Cleanup \<notin> set (trace (fst (run_app env a)))"
  by (simp add: run_app_def run_app_from_setup_raises [OF assms] init_state_def)

theorem setup_failure_propagates_witness:
  "run_app (calm_env\<lparr>app_is_coroutine := True, setup_result := Some (OtherError ''no server'')\<rparr>)
      (plain_args\<lparr>host := Some (Single ''localhost'')\<rparr>) =
     (\<lparr>trace = [AwaitApp, Setup], runner_sites = []\<rparr>, Inl (OtherError ''no server''))"
  using setup_failure_propagates
    [of "calm_env\<lparr>app_is_coroutine := True, setup_result := Some (OtherError ''no server'')\<rparr>"
      "OtherError ''no server''" "plain_args\<lparr>host := Some (Single ''localhost'')\<rparr>"]
  by (simp add: calm_env_def)

subsection \<open>A start that fails\<close>

text \<open>
  Claim C7. If the \<^verbatim>\<open>start()\<close> of the site at index \<open>k\<close> is the first to fail,
  the run is: setup, the starts of the sites up to index \<open>k\<close>, cleanup, and within
  cleanup the stop of every site before index \<open>k\<close>, that is of every site that had
  started. No later site is started, the report is not printed, the wait is not
  entered, and the error of the start propagates (or the error of cleanup, if cleanup
  raises as well).
\<close>

theorem failed_start_aborts_startup:
  assumes "app_is_coroutine env \<longrightarrow> app_result env = None" and "setup_result env = None"
    and "build_sites env a = Inr sites" and "k < length sites"
    and "\<forall>j<k. start_result env j = None" and "start_result env k = Some e"
  shows "trace (fst (run_app env a)) =
       (if app_is_coroutine env then [AwaitApp] else []) @ [Setup]
         @ map Start (take (Suc k) sites) @ [Cleanup] @ map Stop (take k sites)
     \<and> started (trace (fst (run_app env a))) = take (Suc k) sites
     \<and> stopped (trace (fst (run_app env a))) = take k sites
     \<and> filter is_Print (trace (fst (run_app env a))) = []
     \<and> RunForever \<notin> set (trace (fst (run_app env a)))
     \<and> snd (run_app env a) = Inl (case cleanup_result env of None \<Rightarrow> e | Some e' \<Rightarrow> e')"
proof -
  have r: "run_app env a =
     (\<lparr>trace = (if app_is_coroutine env then [AwaitApp] else []) @ [Setup]
           @ map Start (take (Suc k) sites) @ [Cleanup] @ map Stop (take k sites),
       runner_sites = []\<rparr>,
      Inl (case cleanup_result env of None \<Rightarrow> e | Some e' \<Rightarrow> e'))"
    by (simp add: run_app_def run_app_from_first_failure [OF assms] init_state_def)
  have p: "filter is_Print (map Start ss) = []" "filter is_Print (map Stop ss) = []" for ss
    by (induction ss) simp_all
  show ?thesis
    by (auto simp: r started_append stopped_append started_map_Start started_map_Stop
        stopped_map_Start stopped_map_Stop p)
qed

theorem failed_start_aborts_startup_witness:
  "started (trace (fst (run_app
       (calm_env\<lparr>start_result := (start_result calm_env)(1 := Some (OtherError ''address in use''))\<rparr>)
       (plain_args\<lparr>host := Some (Several [''a'', ''b'', ''c'']), port := Some 9\<rparr>)))) =
     [TCPSite (Some ''a'') (Some 9) 60 None 128 None None,
      TCPSite (Some ''b'') (Some 9) 60 None 128 None None]
   \<and> stopped (trace (fst (run_app
       (calm_env\<lparr>start_result := (start_result calm_env)(1 := Some (OtherError ''address in use''))\<rparr>)
       (plain_args\<lparr>host := Some (Several [''a'', ''b'', ''c'']), port := Some 9\<rparr>)))) =
     [TCPSite (Some ''a'') (Some 9) 60 None 128 None None]
   \<and> snd (run_app
       (calm_env\<lparr>start_result := (start_result calm_env)(1 := Some (OtherError ''address in use''))\<rparr>)
       (plain_args\<lparr>host := Some (Several [''a'', ''b'', ''c'']), port := Some 9\<rparr>)) =
     Inl (OtherError ''address in use'')"
proof -
  let ?env = "calm_env\<lparr>start_result :=
      (start_result calm_env)(1 := Some (OtherError ''address in use''))\<rparr>"
  let ?a = "plain_args\<lparr>host := Some (Several [''a'', ''b'', ''c'']), port := Some 9\<rparr>"
  let ?sites = "[TCPSite (Some ''a'') (Some 9) 60 None 128 None None,
      TCPSite (Some ''b'') (Some 9) 60 None 128 None None,
      TCPSite (Some ''c'') (Some 9) 60 None 128 None None]"
  have b: "build_sites ?env ?a = Inr ?sites"
    by (simp add: build_sites_def build_host_def build_path_def build_sock_def
        append_site_def tcp_site_def plain_args_def calm_env_def)
  have 1: "app_is_coroutine ?env \<longrightarrow> app_result ?env = None" by (simp add: calm_env_def)
  have 2: "setup_result ?env = None" by (simp add: calm_env_def)
  have 3: "(1::nat) < length ?sites" by simp
  have 4: "\<forall>j<1::nat. start_result ?env j = None" by (simp add: calm_env_def)
  have 5: "start_result ?env 1 = Some (OtherError ''address in use'')" by simp
  have c: "cleanup_result calm_env = None" by (simp add: calm_env_def)
  show ?thesis
    using failed_start_aborts_startup [OF 1 2 b 3 4 5] by (simp add: c)
qed

section \<open>Startup\<close>

subsection \<open>The trace of a run in which every site starts\<close>

lemma try_finally_all_started_trace:
  assumes "build_sites env a = Inr sites" and "\<forall>j<length sites. start_result env j = None"
  shows "trace (fst (try_finally env a st)) =
     trace st @ map Start sites
       @ (if print a then [Print (report env (st\<lparr>trace := trace st @ map Start sites,
                 runner_sites := runner_sites st @ sites\<rparr>))] else [])
       @ (if print a \<and> print_result env \<noteq> None then [] else [RunForever])
       @ [Cleanup] @ map Stop (runner_sites st @ sites)"
  by (auto simp: try_finally_all_started [OF assms] serve_eq runner_cleanup_def
      split: option.splits)

lemma loop_teardown_trace:
  "trace (fst (loop_teardown env st)) =
     trace st @ (if PY_36 env \<and> has_shutdown_asyncgens env then [ShutdownAsyncgens] else [])
       @ (if PY_36 env \<and> has_shutdown_asyncgens env \<and> shutdown_asyncgens_result env \<noteq> None
          then [] else [Close])"
  by (simp add: loop_teardown_def call_def split: option.splits)


lemma quiet_tail:
  "set xs \<subseteq> {ShutdownAsyncgens, Close} \<Longrightarrow>
   started xs = [] \<and> stopped xs = [] \<and> RunForever \<notin> set xs"
  by (induction xs) auto

lemma run_app_from_all_started_trace:
  assumes "app_is_coroutine env \<longrightarrow> app_result env = None" and "setup_result env = None"
    and "build_sites env a = Inr sites" and "\<forall>j<length sites. start_result env j = None"
  shows "\<exists>msg post. set post \<subseteq> {ShutdownAsyncgens, Close} \<and>
     trace (fst (run_app_from env a st)) =
       trace st @ (if app_is_coroutine env then [AwaitApp] else []) @ [Setup]
         @ map Start sites
         @ (if print a then [Print msg] else [])
         @ (if print a \<and> print_result env \<noteq> None then [] else [RunForever])
         @ [Cleanup] @ map Stop (runner_sites st @ sites) @ post"
proof -
  let ?st1 = "st\<lparr>trace := trace st @ (if app_is_coroutine env then [AwaitApp] else [])
      @ [Setup]\<rparr>"
  have t: "trace (fst (try_finally env a ?st1)) =
     trace ?st1 @ map Start sites
       @ (if print a then [Print (report env (?st1\<lparr>trace := trace ?st1 @ map Start sites,
                 runner_sites := runner_sites ?st1 @ sites\<rparr>))] else [])
       @ (if print a \<and> print_result env \<noteq> None then [] else [RunForever])
       @ [Cleanup] @ map Stop (runner_sites ?st1 @ sites)"
    by (rule try_finally_all_started_trace [OF assms(3,4)])
  obtain st3 r3 where f: "try_finally env a ?st1 = (st3, r3)"
    by (cases "try_finally env a ?st1")
  have "\<exists>post. set post \<subseteq> {ShutdownAsyncgens, Close} \<and>
      trace (fst (run_app_from env a st)) = trace st3 @ post"
  proof (cases r3)
    case (Inl e)
    then have "trace (fst (run_app_from env a st)) = trace st3 @ []"
      by (simp add: run_app_from_setup_ok [OF assms(1,2)] f)
    moreover have "set ([] :: event list) \<subseteq> {ShutdownAsyncgens, Close}" by simp
    ultimately show ?thesis by (intro exI [of _ "[]"] conjI)
  next
    case (Inr u)
    let ?post = "(if PY_36 env \<and> has_shutdown_asyncgens env then [ShutdownAsyncgens] else [])
        @ (if PY_36 env \<and> has_shutdown_asyncgens env \<and> shutdown_asyncgens_result env \<noteq> None
           then [] else [Close])"
    from Inr have "trace (fst (run_app_from env a st)) = trace st3 @ ?post"
      by (simp add: run_app_from_setup_ok [OF assms(1,2)] f loop_teardown_trace)
    moreover have "set ?post \<subseteq> {ShutdownAsyncgens, Close}" by auto
    ultimately show ?thesis by (intro exI [of _ ?post] conjI)
  qed
  then obtain post where q: "set post \<subseteq> {ShutdownAsyncgens, Close}"
    and p: "trace (fst (run_app_from env a st)) = trace st3 @ post" by blast
  from t f have t3: "trace st3 =
     trace ?st1 @ map Start sites
       @ (if print a then [Print (report env (?st1\<lparr>trace := trace ?st1 @ map Start sites,
                 runner_sites := runner_sites ?st1 @ sites\<rparr>))] else [])
       @ (if print a \<and> print_result env \<noteq> None then [] else [RunForever])
       @ [Cleanup] @ map Stop (runner_sites ?st1 @ sites)" by simp
  show ?thesis
    apply (rule exI [of _ "report env (?st1\<lparr>trace := trace ?st1 @ map Start sites,
                 runner_sites := runner_sites ?st1 @ sites\<rparr>)"])
    apply (rule exI [of _ post])
    apply (simp only: p t3 q)
    apply simp
    done
qed


lemma run_app_from_all_started:
  assumes "app_is_coroutine env \<longrightarrow> app_result env = None" and "setup_result env = None"
    and "build_sites env a = Inr sites" and "\<forall>j<length sites. start_result env j = None"
  shows "started (trace (fst (run_app_from env a st))) = started (trace st) @ sites"
    and "stopped (trace (fst (run_app_from env a st))) =
           stopped (trace st) @ runner_sites st @ sites"
    and "RunForever \<notin> set (trace st) \<Longrightarrow>
         RunForever \<in> set (trace (fst (run_app_from env a st))) \<longleftrightarrow>
           \<not> (print a \<and> print_result env \<noteq> None)"
proof -
  from run_app_from_all_started_trace [OF assms, of st]
  obtain msg post where q: "set post \<subseteq> {ShutdownAsyncgens, Close}"
    and t: "trace (fst (run_app_from env a st)) =
       trace st @ (if app_is_coroutine env then [AwaitApp] else []) @ [Setup]
         @ map Start sites
         @ (if print a then [Print msg] else [])
         @ (if print a \<and> print_result env \<noteq> None then [] else [RunForever])
         @ [Cleanup] @ map Stop (runner_sites st @ sites) @ post"
    by blast
  from quiet_tail [OF q]
  have sp: "started post = []" "stopped post = []" "RunForever \<notin> set post" by simp_all
  show "started (trace (fst (run_app_from env a st))) = started (trace st) @ sites"
    by (simp add: t started_append started_map_Start started_map_Stop sp)
  show "stopped (trace (fst (run_app_from env a st))) =
           stopped (trace st) @ runner_sites st @ sites"
    by (simp add: t stopped_append stopped_map_Start stopped_map_Stop sp)
  show "RunForever \<notin> set (trace st) \<Longrightarrow>
         RunForever \<in> set (trace (fst (run_app_from env a st))) \<longleftrightarrow>
           \<not> (print a \<and> print_result env \<noteq> None)"
    using sp(3) by (auto simp: t)
qed

lemma run_app_from_first_failure_facts:
  assumes "app_is_coroutine env \<longrightarrow> app_result env = None" and "setup_result env = None"
    and "build_sites env a = Inr sites" and "k < length sites"
    and "\<forall>j<k. start_result env j = None" and "start_result env k = Some e"
  shows "started (trace (fst (run_app env a))) = take (Suc k) sites"
    and "RunForever \<notin> set (trace (fst (run_app env a)))"
  by (auto simp: run_app_def run_app_from_first_failure [OF assms] init_state_def
      started_append started_map_Start started_map_Stop)

subsection \<open>The order of the starts\<close>

text \<open>
  Claim C8, as stated, fails: the sites are started by a loop that runs each
  \<^verbatim>\<open>start()\<close> to completion before the next iteration, and an exception leaves the
  loop. With two sites of which the first fails to start, the second never begins its
  \<^verbatim>\<open>start()\<close>.
\<close>

theorem second_site_never_started:
  "build_sites
       (calm_env\<lparr>start_result := (start_result calm_env)(0 := Some (OtherError ''address in use''))\<rparr>)
       (plain_args\<lparr>host := Some (Several [''a'', ''b''])\<rparr>) =
     Inr [TCPSite (Some ''a'') None 60 None 128 None None,
          TCPSite (Some ''b'') None 60 None 128 None None]
   \<and> started (trace (fst (run_app
       (calm_env\<lparr>start_result := (start_result calm_env)(0 := Some (OtherError ''address in use''))\<rparr>)
       (plain_args\<lparr>host := Some (Several [''a'', ''b''])\<rparr>)))) =
     [TCPSite (Some ''a'') None 60 None 128 None None]"
proof -
  let ?env = "calm_env\<lparr>start_result :=
      (start_result calm_env)(0 := Some (OtherError ''address in use''))\<rparr>"
  let ?a = "plain_args\<lparr>host := Some (Several [''a'', ''b''])\<rparr>"
  let ?sites = "[TCPSite (Some ''a'') None 60 None 128 None None,
      TCPSite (Some ''b'') None 60 None 128 None None]"
  have b: "build_sites ?env ?a = Inr ?sites"
    by (simp add: build_sites_def build_host_def build_path_def build_sock_def
        append_site_def tcp_site_def plain_args_def calm_env_def)
  have 1: "app_is_coroutine ?env \<longrightarrow> app_result ?env = None" by (simp add: calm_env_def)
  have 2: "setup_result ?env = None" by (simp add: calm_env_def)
  have 3: "(0::nat) < length ?sites" by simp
  have 4: "\<forall>j<0::nat. start_result ?env j = None" by simp
  have 5: "start_result ?env 0 = Some (OtherError ''address in use'')" by simp
  show ?thesis
    using b run_app_from_first_failure_facts(1) [OF 1 2 b 3 4 5] by simp
qed

text \<open>
  Claim C8, amended. The sites are started one after the other in the order of the
  list, each \<^verbatim>\<open>start()\<close> run to completion before the next one begins: the starts
  made are a prefix of the list of sites. The first \<^verbatim>\<open>start()\<close> that fails is the
  last one made, and the wait is then never entered. The wait is entered only after
  every site of the list has started successfully.
\<close>

theorem starts_in_list_order:
  assumes "app_is_coroutine env \<longrightarrow> app_result env = None" and "setup_result env = None"
    and "build_sites env a = Inr sites"
  shows "prefix (started (trace (fst (run_app env a)))) sites
     \<and> (\<forall>k<length sites. (\<forall>j<k. start_result env j = None) \<and> start_result env k \<noteq> None \<longrightarrow>
          started (trace (fst (run_app env a))) = take (Suc k) sites
          \<and> RunForever \<notin> set (trace (fst (run_app env a))))
     \<and> (RunForever \<in> set (trace (fst (run_app env a))) \<longrightarrow>
          started (trace (fst (run_app env a))) = sites
          \<and> (\<forall>j<length sites. start_result env j = None))"
proof -
  have ff: "started (trace (fst (run_app env a))) = take (Suc k) sites
      \<and> RunForever \<notin> set (trace (fst (run_app env a)))"
    if "k < length sites" "\<forall>j<k. start_result env j = None" "start_result env k \<noteq> None" for k
  proof -
    from that(3) obtain e where "start_result env k = Some e" by blast
    from run_app_from_first_failure_facts [OF assms that(1,2) this] show ?thesis by simp
  qed
  have ok: "started (trace (fst (run_app env a))) = sites"
    if "\<forall>j<length sites. start_result env j = None"
    using run_app_from_all_started(1) [OF assms that, of init_state]
    by (simp add: run_app_def init_state_def)
  from first_failure_cases [of "length sites" "start_result env"]
  have cases: "(\<forall>j<length sites. start_result env j = None) \<or>
      (\<exists>k<length sites. (\<forall>j<k. start_result env j = None) \<and> start_result env k \<noteq> None)" .
  have 1: "prefix (started (trace (fst (run_app env a)))) sites"
    using cases
  proof
    assume "\<forall>j<length sites. start_result env j = None"
    from ok [OF this] show ?thesis by simp
  next
    assume "\<exists>k<length sites. (\<forall>j<k. start_result env j = None) \<and> start_result env k \<noteq> None"
    then obtain k where "k < length sites" "\<forall>j<k. start_result env j = None"
      "start_result env k \<noteq> None" by blast
    from ff [OF this] show ?thesis by (simp add: take_is_prefix)
  qed
  have 2: "\<forall>k<length sites. (\<forall>j<k. start_result env j = None) \<and> start_result env k \<noteq> None \<longrightarrow>
          started (trace (fst (run_app env a))) = take (Suc k) sites
          \<and> RunForever \<notin> set (trace (fst (run_app env a)))"
    using ff by blast
  have 3: "RunForever \<in> set (trace (fst (run_app env a))) \<longrightarrow>
          started (trace (fst (run_app env a))) = sites
          \<and> (\<forall>j<length sites. start_result env j = None)"
  proof
    assume r: "RunForever \<in> set (trace (fst (run_app env a)))"
    from cases have "\<forall>j<length sites. start_result env j = None"
    proof
      assume "\<forall>j<length sites. start_result env j = None"
      then show ?thesis .
    next
      assume "\<exists>k<length sites. (\<forall>j<k. start_result env j = None) \<and> start_result env k \<noteq> None"
      then obtain k where "k < length sites" "\<forall>j<k. start_result env j = None"
        "start_result env k \<noteq> None" by blast
      from ff [OF this] r show ?thesis by simp
    qed
    with ok show "started (trace (fst (run_app env a))) = sites
          \<and> (\<forall>j<length sites. start_result env j = None)" by simp
  qed
  from 1 2 3 show ?thesis by blast
qed

theorem starts_in_list_order_witness:
  "started (trace (fst (run_app
       (calm_env\<lparr>start_result := (start_result calm_env)(1 := Some (OtherError ''permission denied''))\<rparr>)
       (plain_args\<lparr>path := Some (Several [''/x'', ''/y'', ''/z''])\<rparr>)))) =
     [UnixSite ''/x'' 60 None 128, UnixSite ''/y'' 60 None 128]
   \<and> RunForever \<notin> set (trace (fst (run_app
       (calm_env\<lparr>start_result := (start_result calm_env)(1 := Some (OtherError ''permission denied''))\<rparr>)
       (plain_args\<lparr>path := Some (Several [''/x'', ''/y'', ''/z''])\<rparr>))))"
proof -
  let ?env = "calm_env\<lparr>start_result :=
      (start_result calm_env)(1 := Some (OtherError ''permission denied''))\<rparr>"
  let ?a = "plain_args\<lparr>path := Some (Several [''/x'', ''/y'', ''/z''])\<rparr>"
  let ?sites = "[UnixSite ''/x'' 60 None 128, UnixSite ''/y'' 60 None 128,
      UnixSite ''/z'' 60 None 128]"
  have b: "build_sites ?env ?a = Inr ?sites"
    by (simp add: build_sites_def build_host_def build_path_def build_sock_def
        append_site_def unix_site_def plain_args_def calm_env_def)
  have 1: "app_is_coroutine ?env \<longrightarrow> app_result ?env = None" by (simp add: calm_env_def)
  have 2: "setup_result ?env = None" by (simp add: calm_env_def)
  have 4: "(\<forall>j<1::nat. start_result ?env j = None) \<and> start_result ?env 1 \<noteq> None"
    by (simp add: calm_env_def)
  have 3: "(1::nat) < length ?sites" by simp
  from starts_in_list_order [OF 1 2 b]
  have "\<forall>k<length ?sites. (\<forall>j<k. start_result ?env j = None) \<and> start_result ?env k \<noteq> None \<longrightarrow>
          started (trace (fst (run_app ?env ?a))) = take (Suc k) ?sites
          \<and> RunForever \<notin> set (trace (fst (run_app ?env ?a)))" by blast
  from this [rule_format, OF 3 4]
  have "started (trace (fst (run_app ?env ?a))) = take (Suc 1) ?sites
          \<and> RunForever \<notin> set (trace (fst (run_app ?env ?a)))" .
  then show ?thesis by simp
qed

section \<open>Interrupts\<close>

text \<open>
  Claim C6. In a run that reaches the wait (awaiting the application and setup return,
  every site is built and starts, and the report is printed), a \<^verbatim>\<open>GracefulExit\<close>
  or \<^verbatim>\<open>KeyboardInterrupt\<close> that leaves \<^verbatim>\<open>loop.run_forever()\<close> is absorbed: the
  run is, in its trace and in its result, the run in which \<^verbatim>\<open>run_forever()\<close> had
  returned. The wait was entered, cleanup runs exactly once and stops every site. When
  cleanup and the closing of the loop do not raise themselves, \<^verbatim>\<open>run_app\<close> returns
  normally, and a \<^verbatim>\<open>main\<close> that had reached this \<^verbatim>\<open>run_app\<close> ends the process
  with status 0 and the message \<^verbatim>\<open>Stopped\<close>.
\<close>

theorem interrupt_absorbed:
  assumes "app_is_coroutine env \<longrightarrow> app_result env = None" and "setup_result env = None"
    and "build_sites env a = Inr sites" and "\<forall>j<length sites. start_result env j = None"
    and "print a \<longrightarrow> print_result env = None"
    and "run_forever_result env = Some e" and "is_interrupt e"
  shows "run_app env a = run_app (env\<lparr>run_forever_result := None\<rparr>) a
     \<and> RunForever \<in> set (trace (fst (run_app env a)))
     \<and> count_list (trace (fst (run_app env a))) Cleanup = 1
     \<and> stopped (trace (fst (run_app env a))) = sites
     \<and> (cleanup_result env = None
          \<and> (PY_36 env \<and> has_shutdown_asyncgens env \<longrightarrow> shutdown_asyncgens_result env = None)
          \<and> close_result env = None \<longrightarrow>
        snd (run_app env a) = Inr ()
        \<and> (\<forall>m c mod_str sep func_str.
              run_env m = env \<and> main_run_args (fst (parse_known_args c)) = a
              \<and> str_partition CHR '':'' (positional c) = (mod_str, sep, func_str)
              \<and> func_str \<noteq> [] \<and> mod_str \<noteq> [] \<and> \<not> prefix ''.'' mod_str
              \<and> import_result m mod_str = None \<and> has_attribute m mod_str func_str
              \<and> (flag_path c = None \<or> has_AF_UNIX m) \<and> factory_result m = None \<longrightarrow>
              snd (main m c) = SystemExit 0 (''Stopped'' @ [CHR 0x0A])))"
proof -
  have 1: "run_app env a = run_app (env\<lparr>run_forever_result := None\<rparr>) a"
    by (simp add: run_app_def run_app_from_interrupt_as_return [OF assms(6,7)])
  have 2: "RunForever \<in> set (trace (fst (run_app env a)))"
    using run_app_from_all_started(3) [OF assms(1,2,3,4), of init_state] assms(5)
    by (simp add: run_app_def init_state_def)
  have 3: "count_list (trace (fst (run_app env a))) Cleanup = 1"
    using assms(1,2) by (simp add: run_app_def run_app_from_cleanups init_state_def)
  have 4: "stopped (trace (fst (run_app env a))) = sites"
    using run_app_from_all_started(2) [OF assms(1,2,3,4), of init_state]
    by (simp add: run_app_def init_state_def)
  have 5: "snd (run_app env a) = Inr ()
        \<and> (\<forall>m c mod_str sep func_str.
              run_env m = env \<and> main_run_args (fst (parse_known_args c)) = a
              \<and> str_partition CHR '':'' (positional c) = (mod_str, sep, func_str)
              \<and> func_str \<noteq> [] \<and> mod_str \<noteq> [] \<and> \<not> prefix ''.'' mod_str
              \<and> import_result m mod_str = None \<and> has_attribute m mod_str func_str
              \<and> (flag_path c = None \<or> has_AF_UNIX m) \<and> factory_result m = None \<longrightarrow>
              snd (main m c) = SystemExit 0 (''Stopped'' @ [CHR 0x0A]))"
    if t: "cleanup_result env = None"
      "PY_36 env \<and> has_shutdown_asyncgens env \<longrightarrow> shutdown_asyncgens_result env = None"
      "close_result env = None"
  proof -
    have r: "snd (run_app_from env a st) = Inr ()" for st
      by (simp add: run_app_from_served [OF assms t])
    have "snd (main m c) = SystemExit 0 (''Stopped'' @ [CHR 0x0A])"
      if "run_env m = env" "main_run_args (fst (parse_known_args c)) = a"
        "str_partition CHR '':'' (positional c) = (mod_str, sep, func_str)"
        "func_str \<noteq> []" "mod_str \<noteq> []" "\<not> prefix ''.'' mod_str"
        "import_result m mod_str = None" "has_attribute m mod_str func_str"
        "flag_path c = None \<or> has_AF_UNIX m" "factory_result m = None"
      for m c mod_str sep func_str
    proof -
      let ?st = "\<lparr>trace = [ImportModule mod_str, BasicConfig, CallFactory], runner_sites = []\<rparr>"
      obtain st4 where "run_app_from env a ?st = (st4, Inr ())"
        using r [of ?st] by (cases "run_app_from env a ?st") simp
      then show ?thesis
        by (simp add: main_reaches_run_app [OF that(3-10)] that(1,2) parser_exit_def)
    qed
    with r [of init_state] show ?thesis
      by (simp add: run_app_def)
  qed
  from 1 2 3 4 5 show ?thesis by blast
qed


theorem interrupt_absorbed_witness:
  "snd (run_app calm_env plain_args) = Inr ()
   \<and> stopped (trace (fst (run_app calm_env plain_args))) =
       [TCPSite None None 60 None 128 None None]
   \<and> snd (main calm_main_env
        \<lparr>positional = ''pkg:app'', flag_hostname = None, flag_port = None, flag_path = None,
         unknown_args = []\<rparr>) = SystemExit 0 (''Stopped'' @ [CHR 0x0A])"
proof -
  let ?c = "\<lparr>positional = ''pkg:app'', flag_hostname = None, flag_port = None,
      flag_path = None, unknown_args = []\<rparr>"
  let ?a = "main_run_args (fst (parse_known_args ?c))"
  have e: "app_is_coroutine calm_env \<longrightarrow> app_result calm_env = None"
    "setup_result calm_env = None" "\<forall>j<length sites. start_result calm_env j = None"
    "print_result calm_env = None" "run_forever_result calm_env = Some KeyboardInterrupt"
    "cleanup_result calm_env = None" "shutdown_asyncgens_result calm_env = None"
    "close_result calm_env = None" for sites :: "site list"
    by (simp_all add: calm_env_def)
  have i: "is_interrupt KeyboardInterrupt" by (simp add: is_interrupt_def)
  have b1: "build_sites calm_env plain_args = Inr [TCPSite None None 60 None 128 None None]"
    by (simp add: build_sites_def build_host_def build_path_def build_sock_def
        append_site_def tcp_site_def plain_args_def calm_env_def)
  have b2: "build_sites calm_env ?a =
      Inr [TCPSite (Some ''localhost'') (Some 8080) 60 None 128 None None]"
    by (simp add: build_sites_def build_host_def build_path_def build_sock_def
        append_site_def tcp_site_def main_run_args_def parse_known_args_def calm_env_def)
  have p: "print plain_args \<longrightarrow> print_result calm_env = None"
    "print ?a \<longrightarrow> print_result calm_env = None"
    by (simp_all add: e)
  have m: "run_env calm_main_env = calm_env" "import_result calm_main_env ''pkg'' = None"
    "has_attribute calm_main_env ''pkg'' ''app''" "has_AF_UNIX calm_main_env"
    "factory_result calm_main_env = None"
    by (simp_all add: calm_main_env_def)
  have s: "str_partition CHR '':'' (positional ?c) = (''pkg'', '':'', ''app'')"
    by simp
  from interrupt_absorbed [OF e(1,2) b1 e(3) p(1) e(5) i]
  have w1: "snd (run_app calm_env plain_args) = Inr ()"
    and w2: "stopped (trace (fst (run_app calm_env plain_args))) =
       [TCPSite None None 60 None 128 None None]"
    using e(6,7,8) by blast+
  from interrupt_absorbed [OF e(1,2) b2 e(3) p(2) e(5) i]
  have "\<forall>m c mod_str sep func_str.
              run_env m = calm_env \<and> main_run_args (fst (parse_known_args c)) = ?a
              \<and> str_partition CHR '':'' (positional c) = (mod_str, sep, func_str)
              \<and> func_str \<noteq> [] \<and> mod_str \<noteq> [] \<and> \<not> prefix ''.'' mod_str
              \<and> import_result m mod_str = None \<and> has_attribute m mod_str func_str
              \<and> (flag_path c = None \<or> has_AF_UNIX m) \<and> factory_result m = None \<longrightarrow>
              snd (main m c) = SystemExit 0 (''Stopped'' @ [CHR 0x0A])"
    using e(6,7,8) by blast
  from this [rule_format, of calm_main_env ?c "''pkg''" "'':''" "''app''"] m s
  have w3: "snd (main calm_main_env ?c) = SystemExit 0 (''Stopped'' @ [CHR 0x0A])"
    by simp
  from w1 w2 w3 show ?thesis by blast
qed

section \<open>The command line\<close>

subsection \<open>A path on a platform without Unix domain sockets\<close>

text \<open>
  Claim C9. When \<^verbatim>\<open>--path\<close> is given and the \<^verbatim>\<open>socket\<close> module has no
  \<^verbatim>\<open>AF_UNIX\<close>, \<^verbatim>\<open>main\<close> never calls the entry function and never enters
  \<^verbatim>\<open>run_app\<close> (it does nothing beyond importing the module), and it does not end
  with status 0. When the entry function resolves (the positional argument has the form
  \<^verbatim>\<open>module:function\<close>, the module is not relative and loads, and it has the
  attribute), \<^verbatim>\<open>main\<close> ends with status 2 and the diagnostic that file system paths
  are not supported; otherwise an earlier error of the entry function ends it.
\<close>

theorem path_without_AF_UNIX:
  assumes "flag_path c = Some p" and "\<not> has_AF_UNIX m"
  shows "CallFactory \<notin> set (trace (fst (main m c)))
     \<and> (trace (fst (main m c)) = [] \<or> (\<exists>md. trace (fst (main m c)) = [ImportModule md]))
     \<and> (\<forall>msg. snd (main m c) \<noteq> SystemExit 0 msg)
     \<and> (\<forall>mod_str sep func_str.
          str_partition CHR '':'' (positional c) = (mod_str, sep, func_str)
          \<and> func_str \<noteq> [] \<and> mod_str \<noteq> [] \<and> \<not> prefix ''.'' mod_str
          \<and> import_result m mod_str = None \<and> has_attribute m mod_str func_str \<longrightarrow>
          main m c =
            (\<lparr>trace = [ImportModule mod_str], runner_sites = []\<rparr>,
             SystemExit 2 ''file system paths not supported by your operating environment''))"
proof -
  obtain mod_str sep func_str
    where s: "str_partition CHR '':'' (positional c) = (mod_str, sep, func_str)"
    by (cases "str_partition CHR '':'' (positional c)")
  have g: "CallFactory \<notin> set (trace (fst (main m c)))
     \<and> (trace (fst (main m c)) = [] \<or> (\<exists>md. trace (fst (main m c)) = [ImportModule md]))
     \<and> (\<forall>msg. snd (main m c) \<noteq> SystemExit 0 msg)"
    using assms
    by (simp add: main_def parse_known_args_def s call_def init_state_def parser_error_def
        split: option.splits exc.splits)
  have h: "main m c =
            (\<lparr>trace = [ImportModule mod_str], runner_sites = []\<rparr>,
             SystemExit 2 ''file system paths not supported by your operating environment'')"
    if "func_str \<noteq> []" "mod_str \<noteq> []" "\<not> prefix ''.'' mod_str"
      "import_result m mod_str = None" "has_attribute m mod_str func_str"
    using assms that
    by (simp add: main_def parse_known_args_def s call_def init_state_def parser_error_def)
  from g h s show ?thesis by auto
qed

theorem path_without_AF_UNIX_witness:
  "main (calm_main_env\<lparr>has_AF_UNIX := False\<rparr>)
      \<lparr>positional = ''pkg:app'', flag_hostname = None, flag_port = None,
       flag_path = Some ''/tmp/a.sock'', unknown_args = []\<rparr> =
     (\<lparr>trace = [ImportModule ''pkg''], runner_sites = []\<rparr>,
      SystemExit 2 ''file system paths not supported by your operating environment'')"
proof -
  let ?m = "calm_main_env\<lparr>has_AF_UNIX := False\<rparr>"
  let ?c = "\<lparr>positional = ''pkg:app'', flag_hostname = None, flag_port = None,
       flag_path = Some ''/tmp/a.sock'', unknown_args = []\<rparr>"
  have 1: "flag_path ?c = Some ''/tmp/a.sock''" by simp
  have 2: "\<not> has_AF_UNIX ?m" by simp
  have s: "str_partition CHR '':'' (positional ?c) = (''pkg'', '':'', ''app'')
          \<and> ''app'' \<noteq> [] \<and> ''pkg'' \<noteq> [] \<and> \<not> prefix ''.'' ''pkg''
          \<and> import_result ?m ''pkg'' = None \<and> has_attribute ?m ''pkg'' ''app''"
    by (simp add: calm_main_env_def)
  from path_without_AF_UNIX [OF 1 2]
  have "\<forall>mod_str sep func_str.
          str_partition CHR '':'' (positional ?c) = (mod_str, sep, func_str)
          \<and> func_str \<noteq> [] \<and> mod_str \<noteq> [] \<and> \<not> prefix ''.'' mod_str
          \<and> import_result ?m mod_str = None \<and> has_attribute ?m mod_str func_str \<longrightarrow>
          main ?m ?c =
            (\<lparr>trace = [ImportModule mod_str], runner_sites = []\<rparr>,
             SystemExit 2 ''file system paths not supported by your operating environment'')"
    by blast
  from this [rule_format, OF s] show ?thesis .
qed

subsection \<open>A path together with the hostname default\<close>

text \<open>
  Claim C10 does not hold of \<^verbatim>\<open>main\<close>, although the help text of \<^verbatim>\<open>--path\<close> says
  the same as the claim (\<^verbatim>\<open>Specifying a path will cause hostname and port arguments
  to be ignored\<close>): \<^verbatim>\<open>main\<close> passes \<^verbatim>\<open>host=args.hostname\<close>, which is
  \<^verbatim>\<open>localhost\<close> when the flag is absent and never \<^verbatim>\<open>None\<close>, so the branch for a
  host string always runs. For the command line \<^verbatim>\<open>pkg:app --path /tmp/a.sock\<close> the
  sites started are a \<^verbatim>\<open>TCPSite\<close> on \<^verbatim>\<open>localhost:8080\<close> and the
  \<^verbatim>\<open>UnixSite\<close>.
\<close>

theorem main_path_keeps_hostname_site:
  "started (trace (fst (main calm_main_env
      \<lparr>positional = ''pkg:app'', flag_hostname = None, flag_port = None,
       flag_path = Some ''/tmp/a.sock'', unknown_args = []\<rparr>))) =
     [TCPSite (Some ''localhost'') (Some 8080) 60 None 128 None None,
      UnixSite ''/tmp/a.sock'' 60 None 128]"
proof -
  let ?c = "\<lparr>positional = ''pkg:app'', flag_hostname = None, flag_port = None,
       flag_path = Some ''/tmp/a.sock'', unknown_args = []\<rparr>"
  let ?a = "main_run_args (fst (parse_known_args ?c))"
  let ?st = "\<lparr>trace = [ImportModule ''pkg'', BasicConfig, CallFactory], runner_sites = []\<rparr>"
  have b: "build_sites calm_env ?a =
      Inr [TCPSite (Some ''localhost'') (Some 8080) 60 None 128 None None,
           UnixSite ''/tmp/a.sock'' 60 None 128]"
    by (simp add: build_sites_def build_host_def build_path_def build_sock_def
        append_site_def tcp_site_def unix_site_def main_run_args_def parse_known_args_def
        calm_env_def)
  have e: "app_is_coroutine calm_env \<longrightarrow> app_result calm_env = None"
    "setup_result calm_env = None" "\<forall>j<length sites. start_result calm_env j = None"
    for sites :: "site list"
    by (simp_all add: calm_env_def)
  have m: "main calm_main_env ?c =
     (case run_app_from (run_env calm_main_env) ?a ?st of
        (st4, Inl e) \<Rightarrow> (st4, Uncaught e)
      | (st4, Inr u) \<Rightarrow> (st4, parser_exit (''Stopped'' @ [CHR 0x0A])))"
  proof (rule main_reaches_run_app [where mod_str = "''pkg''" and sep = "'':''"
        and func_str = "''app''"])
    show "str_partition CHR '':'' (positional ?c) = (''pkg'', '':'', ''app'')" by simp
    show "''app'' \<noteq> ([] :: string)" by simp
    show "''pkg'' \<noteq> ([] :: string)" by simp
    show "\<not> prefix ''.'' ''pkg''" by simp
    show "import_result calm_main_env ''pkg'' = None" by (simp add: calm_main_env_def)
    show "has_attribute calm_main_env ''pkg'' ''app''" by (simp add: calm_main_env_def)
    show "flag_path ?c = None \<or> has_AF_UNIX calm_main_env" by (simp add: calm_main_env_def)
    show "factory_result calm_main_env = None" by (simp add: calm_main_env_def)
  qed
  have re: "run_env calm_main_env = calm_env" by (simp add: calm_main_env_def)
  have "fst (main calm_main_env ?c) = fst (run_app_from calm_env ?a ?st)"
    unfolding m re by (simp split: prod.splits sum.splits)
  then show ?thesis
    using run_app_from_all_started(1) [OF e(1,2) b e(3), of ?st] by simp
qed

end
